theory Spec2Isabelle
  imports Main "HOL-Library.Char_ord" "HOL-Library.List_Lexorder" "HOL-Library.Multiset"
begin

section \<open>Python values and exceptions\<close>

text \<open>
  The exceptions the modelled code can raise.  networkx's \<^verbatim>\<open>NetworkXUnfeasible\<close> is what
  \<^verbatim>\<open>topological_sort\<close> raises on a cyclic graph; \<^verbatim>\<open>RecursionError\<close> is Python's answer to a
  recursion that exceeds the interpreter's depth limit.
\<close>

datatype 'k error =
    KeyError 'k
  | AttributeError string
  | TypeError
  | ValueError
  | RecursionError
  | NetworkXUnfeasible

section \<open>The deep equality predicate \<^verbatim>\<open>eq\<close> of \<^verbatim>\<open>_containers.py\<close>\<close>

text \<open>
  \<^verbatim>\<open>eq\<close> starts with the identity test \<^verbatim>\<open>x is y\<close>, so the objects it compares carry an
  identity: an object is an address together with its value.  The values are \<^verbatim>\<open>None\<close>,
  integers, strings, the float NaN and dicts (with their concrete class and string keys, in
  insertion order).  Sequences occur only where \<^verbatim>\<open>eq\<close> builds them itself: the tuple of keys
  and the object array of values of the dict branch; they are HOL lists of objects.
\<close>

datatype pyobj = Obj (oid: nat) (oval: pyvalue)
and pyvalue =
    VNone
  | VInt int
  | VStr string
  | VNaN
  | VDict string "(string \<times> pyobj) list"

text \<open>
  \<^verbatim>\<open>np.all(_veq(x, y))\<close> on two sequences of equal length: \<^verbatim>\<open>np.vectorize\<close> refuses inputs
  of size 0 with a \<^verbatim>\<open>ValueError\<close>, and otherwise calls the function on every pair; an
  exception in any call propagates.  The function is passed as an argument, as the source
  passes \<^verbatim>\<open>eq\<close> to \<^verbatim>\<open>np.vectorize\<close>.
\<close>

fun all_pairs :: "('a \<Rightarrow> 'a \<Rightarrow> 'e + bool) \<Rightarrow> 'a list \<Rightarrow> 'a list \<Rightarrow> 'e + bool" where
  "all_pairs f (x # xs) (y # ys) =
     (case f x y of
        Inl e \<Rightarrow> Inl e
      | Inr b \<Rightarrow> (case all_pairs f xs ys of Inl e \<Rightarrow> Inl e | Inr bs \<Rightarrow> Inr (b \<and> bs)))"
| "all_pairs f _ _ = Inr True"

definition veq_all ::
  "('a \<Rightarrow> 'a \<Rightarrow> 'k error + bool) \<Rightarrow> 'a list \<Rightarrow> 'a list \<Rightarrow> 'k error + bool" where
  "veq_all f xs ys = (if xs = [] \<or> ys = [] then Inl ValueError else all_pairs f xs ys)"

text \<open>
  The branch of \<^verbatim>\<open>eq\<close> for tuples, lists and arrays, both arguments of the same sequence
  type: \<^verbatim>\<open>len(x)==len(y) and _eq_attrs(x,y,['__shape__']) and np.all(_veq(x,y))\<close>.  No value
  of this model has a \<^verbatim>\<open>__shape__\<close> attribute, so \<^verbatim>\<open>_eq_attrs\<close> is \<^verbatim>\<open>True\<close>.
\<close>

definition eq_seq ::
  "('a \<Rightarrow> 'a \<Rightarrow> 'k error + bool) \<Rightarrow> 'a list \<Rightarrow> 'a list \<Rightarrow> 'k error + bool" where
  "eq_seq f xs ys = (if length xs = length ys then veq_all f xs ys else Inr False)"

text \<open>\<^verbatim>\<open>zip(*sorted(x.items()))\<close> unpacked into two names: the items sorted by key, split into
  the tuple of keys and the tuple of values.  With no item, \<^verbatim>\<open>zip()\<close> yields nothing and the
  unpacking raises \<^verbatim>\<open>ValueError\<close>.\<close>

definition unzip_sorted ::
  "(string \<times> pyobj) list \<Rightarrow> nat error + (string list \<times> pyobj list)" where
  "unzip_sorted items =
     (if items = [] then Inl ValueError
      else Inr (map fst (sort_key fst items), map snd (sort_key fst items)))"

text \<open>The last branch of \<^verbatim>\<open>eq\<close>, \<^verbatim>\<open>x == y\<close>, on two strings (the keys).\<close>

definition eq_str :: "string \<Rightarrow> string \<Rightarrow> nat error + bool" where
  "eq_str a b = Inr (a = b)"

text \<open>
  \<^verbatim>\<open>eq\<close> itself.  The branches, in the source's order: identity; (sequences, handled by
  \<open>eq_seq\<close>); dicts; NaN; and \<^verbatim>\<open>x == y\<close>.  In the dict branch both \<^verbatim>\<open>xkey, xval\<close> and
  \<^verbatim>\<open>ykey, yval\<close> are computed from \<^verbatim>\<open>x.items()\<close>, as the source has it.  The object array
  \<^verbatim>\<open>np.array(xval, dtype='object')\<close> holds the objects of \<^verbatim>\<open>xval\<close> themselves.
\<close>

lemma all_pairs_cong [fundef_cong]:
  "xs = xs' \<Longrightarrow> ys = ys' \<Longrightarrow>
   (\<And>x y. x \<in> set xs' \<Longrightarrow> y \<in> set ys' \<Longrightarrow> f x y = g x y) \<Longrightarrow>
   all_pairs f xs ys = all_pairs g xs' ys'"
proof (induction g xs' ys' arbitrary: xs ys rule: all_pairs.induct)
  case (1 g x xs' y ys')
  then show ?case by (auto split: sum.splits)
qed auto

lemma eq_seq_cong [fundef_cong]:
  "xs = xs' \<Longrightarrow> ys = ys' \<Longrightarrow>
   (\<And>x y. x \<in> set xs' \<Longrightarrow> y \<in> set ys' \<Longrightarrow> f x y = g x y) \<Longrightarrow>
   eq_seq f xs ys = eq_seq g xs' ys'"
  unfolding eq_seq_def veq_all_def using all_pairs_cong [of xs xs' ys ys' f g] by simp

function (sequential) eq :: "pyobj \<Rightarrow> pyobj \<Rightarrow> nat error + bool" where
  "eq (Obj i x) (Obj j y) =
     (if i = j then Inr True
      else (case x of
          VDict cls items \<Rightarrow>
            (case y of
               VDict cls' items' \<Rightarrow>
                 if cls = cls' \<and> length items = length items' then
                   (case unzip_sorted items of
                      Inl e \<Rightarrow> Inl e
                    | Inr (xkey, xval) \<Rightarrow>
                       (case unzip_sorted items of
                          Inl e \<Rightarrow> Inl e
                        | Inr (ykey, yval) \<Rightarrow>
                           (case eq_seq eq_str xkey ykey of
                              Inl e \<Rightarrow> Inl e
                            | Inr False \<Rightarrow> Inr False
                            | Inr True \<Rightarrow> eq_seq eq xval yval)))
                 else Inr False
             | _ \<Rightarrow> Inr False)
        | VNaN \<Rightarrow> Inr (y = VNaN)
        | _ \<Rightarrow> Inr (x = y)))"
  by pat_completeness auto
termination
proof (relation "measure (\<lambda>(a, b). size a)", goal_cases)
  case 1
  show ?case by simp
next
  case (2 i x j y cls items cls' items' r xkey xval r' ykey yval b a a')
  then have "a \<in> snd ` set items"
    by (auto simp: unzip_sorted_def split: if_splits)
  then obtain k where "(k, a) \<in> set items" by auto
  then have "size a < Suc (size_list (size_prod (\<lambda>_. 0) size) items)"
    by (induction items) auto
  with 2 show ?case by simp
qed

subsection \<open>What the dict branch of \<^verbatim>\<open>eq\<close> computes\<close>







section \<open>Values of the graph layer\<close>

text \<open>
  The values that cells and graphs of \<^verbatim>\<open>_graph.py\<close> hold: \<^verbatim>\<open>None\<close>, integers, strings,
  callables (named, opaque), lists, tuples, plain dicts with string keys (in insertion order)
  and cells.  A cell \<open>PCell node function args kwargs\<close> has the four fields that the graph
  layer reads and writes: \<^verbatim>\<open>c.node\<close>, \<^verbatim>\<open>c.function\<close>, \<^verbatim>\<open>c.args\<close> and \<^verbatim>\<open>c.kwargs\<close>.
\<close>

datatype pyval =
    PNone
  | PInt int
  | PStr string
  | PFun string
  | PList "pyval list"
  | PTuple "pyval list"
  | PDict "(string \<times> pyval) list"
  | PCell pyval pyval "pyval list" "(string \<times> pyval) list"

type_synonym attrs = "(string \<times> pyval) list"

type_synonym err = "pyval error"

text \<open>\<^verbatim>\<open>isinstance(v, Cell)\<close>, \<^verbatim>\<open>is_array\<close> of \<^verbatim>\<open>_containers.py\<close> (lists and tuples, of the
  values above) and \<^verbatim>\<open>_is_edge\<close>.\<close>

definition is_cell :: "pyval \<Rightarrow> bool" where
  "is_cell v = (case v of PCell n f a k \<Rightarrow> True | _ \<Rightarrow> False)"

definition is_array :: "pyval \<Rightarrow> bool" where
  "is_array v = (case v of PList xs \<Rightarrow> True | PTuple xs \<Rightarrow> True | _ \<Rightarrow> False)"

definition is_edge :: "pyval \<Rightarrow> bool" where
  "is_edge key = (case key of PTuple [a, b] \<Rightarrow> True | _ \<Rightarrow> False)"

text \<open>Python's hashability: what may be a key of a dict, hence a node of a networkx graph.
  Lists and dicts are not hashable; a cell is a dict.\<close>

fun hashable :: "pyval \<Rightarrow> bool" where
  "hashable (PList xs) = False"
| "hashable (PDict d) = False"
| "hashable (PCell n f a k) = False"
| "hashable (PTuple xs) = list_all hashable xs"
| "hashable v = True"

subsection \<open>Dicts in insertion order\<close>

text \<open>\<^verbatim>\<open>d[k] = v\<close> keeps the position of a key that is present and appends a new one;
  \<^verbatim>\<open>d.update(e)\<close> does so for every item of \<^verbatim>\<open>e\<close> in turn.\<close>

fun dict_set :: "('a \<times> 'b) list \<Rightarrow> 'a \<Rightarrow> 'b \<Rightarrow> ('a \<times> 'b) list" where
  "dict_set [] k v = [(k, v)]"
| "dict_set ((k', v') # d) k v = (if k' = k then (k, v) # d else (k', v') # dict_set d k v)"

definition dict_update :: "('a \<times> 'b) list \<Rightarrow> ('a \<times> 'b) list \<Rightarrow> ('a \<times> 'b) list" where
  "dict_update d e = foldl (\<lambda>d (k, v). dict_set d k v) d e"

section \<open>The part of networkx's \<^verbatim>\<open>DiGraph\<close> that the graphs use\<close>

text \<open>
  A \<^verbatim>\<open>DiGraph\<close> keeps a dict of node attribute dicts (\<^verbatim>\<open>_node\<close>) and, per edge, an edge
  attribute dict.  \<open>nodes\<close> is the iteration order of \<^verbatim>\<open>G.nodes\<close>, \<open>node_data\<close> the attribute
  dict of each node and \<open>edge_data\<close> that of each edge.
\<close>

record graph =
  nodes :: "pyval list"
  node_data :: "pyval \<rightharpoonup> attrs"
  edge_data :: "pyval \<times> pyval \<rightharpoonup> attrs"

definition empty_graph :: graph where
  "empty_graph = \<lparr>nodes = [], node_data = Map.empty, edge_data = Map.empty\<rparr>"

text \<open>
  The mutating methods work in place and may raise after a part of their work is done.  They
  are modelled as functions from the graph to the graph as it is left, paired with the
  exception raised, if any.
\<close>

type_synonym mut = "graph \<times> err option"

definition and_then :: "mut \<Rightarrow> (graph \<Rightarrow> mut) \<Rightarrow> mut" where
  "and_then m f = (case m of (g, Some e) \<Rightarrow> (g, Some e) | (g, None) \<Rightarrow> f g)"

text \<open>
  \<^verbatim>\<open>add_node(n, **attr)\<close>: a new node gets a fresh attribute dict, updated with \<^verbatim>\<open>attr\<close>; for a
  node that is present, \<^verbatim>\<open>attr\<close> is merged into its attribute dict (\<^verbatim>\<open>update\<close>), the other
  attributes staying.  \<^verbatim>\<open>None\<close> is refused as a node, an unhashable node is a \<^verbatim>\<open>TypeError\<close>.
\<close>

definition nx_add_node :: "graph \<Rightarrow> pyval \<Rightarrow> attrs \<Rightarrow> mut" where
  "nx_add_node g n attr =
     (if \<not> hashable n then (g, Some TypeError)
      else case node_data g n of
        None \<Rightarrow>
          if n = PNone then (g, Some ValueError)
          else (g\<lparr>nodes := nodes g @ [n],
                  node_data := (node_data g)(n \<mapsto> dict_update [] attr)\<rparr>, None)
      | Some d \<Rightarrow> (g\<lparr>node_data := (node_data g)(n \<mapsto> dict_update d attr)\<rparr>, None))"

text \<open>
  \<^verbatim>\<open>add_edge(u, v, **attr)\<close>: first \<^verbatim>\<open>u\<close>, then \<^verbatim>\<open>v\<close> is added as a node with an empty
  attribute dict if it is not one yet; then \<^verbatim>\<open>attr\<close> is merged into the edge's attribute dict.
\<close>

definition nx_ensure_node :: "graph \<Rightarrow> pyval \<Rightarrow> mut" where
  "nx_ensure_node g n =
     (if \<not> hashable n then (g, Some TypeError)
      else case node_data g n of
        None \<Rightarrow>
          if n = PNone then (g, Some ValueError)
          else (g\<lparr>nodes := nodes g @ [n], node_data := (node_data g)(n \<mapsto> [])\<rparr>, None)
      | Some d \<Rightarrow> (g, None))"

definition nx_add_edge :: "graph \<Rightarrow> pyval \<Rightarrow> pyval \<Rightarrow> attrs \<Rightarrow> mut" where
  "nx_add_edge g u v attr =
     and_then (nx_ensure_node g u) (\<lambda>g1.
     and_then (nx_ensure_node g1 v) (\<lambda>g2.
       (g2\<lparr>edge_data := (edge_data g2)((u, v) \<mapsto>
              dict_update (case edge_data g2 (u, v) of None \<Rightarrow> [] | Some d \<Rightarrow> d) attr)\<rparr>,
        None)))"

text \<open>\<^verbatim>\<open>G.nodes[n]\<close> and \<^verbatim>\<open>G.edges[u, v]\<close>: the attribute dict, or a \<^verbatim>\<open>KeyError\<close> naming the
  key that is missing.\<close>

definition nx_node :: "graph \<Rightarrow> pyval \<Rightarrow> err + attrs" where
  "nx_node g n =
     (if \<not> hashable n then Inl TypeError
      else case node_data g n of None \<Rightarrow> Inl (KeyError n) | Some d \<Rightarrow> Inr d)"

definition nx_edge :: "graph \<Rightarrow> pyval \<Rightarrow> pyval \<Rightarrow> err + attrs" where
  "nx_edge g u v =
     (if \<not> hashable u \<or> \<not> hashable v then Inl TypeError
      else case edge_data g (u, v) of
        Some d \<Rightarrow> Inr d
      | None \<Rightarrow> Inl (KeyError (if node_data g u = None then u else v)))"

section \<open>\<^verbatim>\<open>DAG\<close>: item access over a \<^verbatim>\<open>DiGraph\<close>\<close>



definition as_value :: "attrs \<Rightarrow> pyval" where
  "as_value d = (case d of [(k, v)] \<Rightarrow> if k = ''value'' then v else PDict d | _ \<Rightarrow> PDict d)"



subsection \<open>Setting and getting an item of a \<^verbatim>\<open>DAG\<close>\<close>














section \<open>Strings: references and integers\<close>

text \<open>\<^verbatim>\<open>_is_ref\<close>: a string that starts with \<^verbatim>\<open>@\<close>.  \<^verbatim>\<open>_is_int\<close>: a string of decimal digits,
  with an optional minus sign in front.\<close>

definition is_ref :: "pyval \<Rightarrow> bool" where
  "is_ref v = (case v of PStr (c # s) \<Rightarrow> c = CHR ''@'' | _ \<Rightarrow> False)"

definition isdigit :: "string \<Rightarrow> bool" where
  "isdigit s = (s \<noteq> [] \<and> list_all (\<lambda>c. c \<in> set ''0123456789'') s)"

definition is_int :: "string \<Rightarrow> bool" where
  "is_int s = ((case s of c # r \<Rightarrow> c = CHR ''-'' \<and> isdigit r | [] \<Rightarrow> False) \<or> isdigit s)"

text \<open>\<^verbatim>\<open>int(s)\<close> on a string that \<^verbatim>\<open>_is_int\<close> accepts, and \<^verbatim>\<open>str(i)\<close> of an integer.\<close>

definition digit_val :: "char \<Rightarrow> nat" where
  "digit_val c = of_char c - 48"

definition nat_of_digits :: "string \<Rightarrow> nat" where
  "nat_of_digits s = foldl (\<lambda>n c. 10 * n + digit_val c) 0 s"

definition py_int :: "string \<Rightarrow> int" where
  "py_int s =
     (case s of
        c # r \<Rightarrow> if c = CHR ''-'' then - int (nat_of_digits r) else int (nat_of_digits s)
      | [] \<Rightarrow> 0)"

fun digits_of :: "nat \<Rightarrow> string" where
  "digits_of n =
     (if n < 10 then [''0123456789'' ! n] else digits_of (n div 10) @ [''0123456789'' ! (n mod 10)])"

definition str_int :: "int \<Rightarrow> string" where
  "str_int i = (if i < 0 then CHR ''-'' # digits_of (nat (- i)) else digits_of (nat i))"

text \<open>\<^verbatim>\<open>', '.join(xs)\<close>.\<close>

fun join_comma :: "string list \<Rightarrow> string" where
  "join_comma [] = []"
| "join_comma [x] = x"
| "join_comma (x # xs) = x @ '', '' @ join_comma xs"

text \<open>
  \<^verbatim>\<open>repr(v)\<close> and \<^verbatim>\<open>str(v)\<close>.  They are exact on integers, on \<^verbatim>\<open>None\<close> and, for \<^verbatim>\<open>str\<close>, on
  strings; a string is quoted by \<^verbatim>\<open>repr\<close> without escapes.  Modelled from the spec: the
  printed form of a callable and of a cell (a dict of its fields), which \<^verbatim>\<open>_cell.py\<close> decides.
\<close>

fun py_repr :: "pyval \<Rightarrow> string" where
  "py_repr PNone = ''None''"
| "py_repr (PInt i) = str_int i"
| "py_repr (PStr s) = [CHR 0x27] @ s @ [CHR 0x27]"
| "py_repr (PFun f) = ''<function '' @ f @ ''>''"
| "py_repr (PList xs) = ''['' @ join_comma (map py_repr xs) @ '']''"
| "py_repr (PTuple xs) = ''('' @ join_comma (map py_repr xs) @ '')''"
| "py_repr (PDict d) =
     ''{'' @ join_comma (map (\<lambda>kv. [CHR 0x27] @ fst kv @ [CHR 0x27] @ '': '' @ py_repr (snd kv)) d) @ ''}''"
| "py_repr (PCell n f a k) =
     ''{'' @ join_comma
        ([''node: '' @ py_repr n, ''function: '' @ py_repr f]
         @ map py_repr a
         @ map (\<lambda>kv. [CHR 0x27] @ fst kv @ [CHR 0x27] @ '': '' @ py_repr (snd kv)) k) @ ''}''"

definition py_str :: "pyval \<Rightarrow> string" where
  "py_str v = (case v of PStr s \<Rightarrow> s | _ \<Rightarrow> py_repr v)"

text \<open>\<^verbatim>\<open>'@%s' % v\<close>: a tuple on the right of \<^verbatim>\<open>%\<close> is the tuple of arguments, and the one
  \<^verbatim>\<open>%s\<close> wants exactly one.\<close>

definition format_ref :: "pyval \<Rightarrow> err + pyval" where
  "format_ref v =
     (case v of
        PTuple [x] \<Rightarrow> Inr (PStr (CHR ''@'' # py_str x))
      | PTuple xs \<Rightarrow> Inl TypeError
      | _ \<Rightarrow> Inr (PStr (CHR ''@'' # py_str v)))"

section \<open>Results and loops that may raise\<close>

definition bind :: "'e + 'a \<Rightarrow> ('a \<Rightarrow> 'e + 'b) \<Rightarrow> 'e + 'b" where
  "bind m f = (case m of Inl e \<Rightarrow> Inl e | Inr x \<Rightarrow> f x)"

text \<open>A list comprehension \<^verbatim>\<open>[f(x) for x in xs]\<close> and a loop \<^verbatim>\<open>for x in xs: s = f(s, x)\<close>, both
  stopped by the first exception.\<close>

fun map_result :: "('a \<Rightarrow> 'e + 'b) \<Rightarrow> 'a list \<Rightarrow> 'e + 'b list" where
  "map_result f [] = Inr []"
| "map_result f (x # xs) =
     (case f x of
        Inl e \<Rightarrow> Inl e
      | Inr y \<Rightarrow> (case map_result f xs of Inl e \<Rightarrow> Inl e | Inr ys \<Rightarrow> Inr (y # ys)))"

fun fold_result :: "('s \<Rightarrow> 'a \<Rightarrow> 'e + 's) \<Rightarrow> 'a list \<Rightarrow> 's \<Rightarrow> 'e + 's" where
  "fold_result f [] s = Inr s"
| "fold_result f (x # xs) s = (case f s x of Inl e \<Rightarrow> Inl e | Inr s' \<Rightarrow> fold_result f xs s')"

text \<open>The same loop over a graph that is changed in place: the graph is left as it is when
  the exception is raised.\<close>

fun for_each :: "(graph \<Rightarrow> 'a \<Rightarrow> mut) \<Rightarrow> 'a list \<Rightarrow> graph \<Rightarrow> mut" where
  "for_each f [] g = (g, None)"
| "for_each f (x # xs) g = and_then (f g x) (for_each f xs)"

definition committed :: "mut \<Rightarrow> err + graph" where
  "committed m = (case m of (g, None) \<Rightarrow> Inr g | (g, Some e) \<Rightarrow> Inl e)"

lemma map_result_cong [fundef_cong]:
  "xs = ys \<Longrightarrow> (\<And>x. x \<in> set ys \<Longrightarrow> f x = g x) \<Longrightarrow> map_result f xs = map_result g ys"
  by (induction ys arbitrary: xs) (auto split: sum.splits)

section \<open>Cells and their hash\<close>

text \<open>
  Modelled from the spec: \<^verbatim>\<open>Hash\<close>, which \<^verbatim>\<open>_cell.py\<close> defines and the sources do not include.
  The spec asks for a deterministic, value-based digest that normalises every key into one
  key space: an integer is its own key, a cell is hashed by its node, and every other value
  gets an integer digest of its content, nested cells replaced by their keys.  The digest of
  a string reads it as a numeral to the base 257; the digest of any other content is that of
  its printed form.
\<close>

definition digest :: "string \<Rightarrow> int" where
  "digest s = foldl (\<lambda>n c. 257 * n + of_char c + 1) 0 s"

fun Hash :: "pyval \<Rightarrow> pyval" where
  "Hash (PInt i) = PInt i"
| "Hash (PStr s) = PInt (digest s)"
| "Hash (PCell n f a k) = Hash n"
| "Hash PNone = PInt (digest (py_repr PNone))"
| "Hash (PFun f) = PInt (digest (py_repr (PFun f)))"
| "Hash (PList xs) = PInt (digest (py_repr (PList (map Hash xs))))"
| "Hash (PTuple xs) = PInt (digest (py_repr (PTuple (map Hash xs))))"
| "Hash (PDict d) = PInt (digest (py_repr (PDict (map (\<lambda>kv. (fst kv, Hash (snd kv))) d))))"

text \<open>
  Modelled from the spec: \<^verbatim>\<open>_per_cell(value, f)\<close> of \<^verbatim>\<open>_cell.py\<close>, as \<^verbatim>\<open>_to_id\<close> uses it:
  \<^verbatim>\<open>f\<close> is applied to a cell, an array is mapped element by element into a list, any other
  value is returned as it is.  The function \<^verbatim>\<open>f\<close> of \<^verbatim>\<open>_to_id\<close> is in the sources: the
  reference \<^verbatim>\<open>'@%s'\<close> to \<^verbatim>\<open>v.id\<close> when \<^verbatim>\<open>v.node\<close> is a dict and to \<^verbatim>\<open>v.node\<close> otherwise.  The
  \<^verbatim>\<open>id\<close> of a cell whose node is a dict is, by the spec, the explicit id field inside that dict.
\<close>

fun to_id_val :: "pyval \<Rightarrow> err + pyval" where
  "to_id_val (PCell n f a k) =
     (case n of
        PDict d \<Rightarrow>
          (case map_of d ''id'' of None \<Rightarrow> Inl (AttributeError ''id'') | Some i \<Rightarrow> format_ref i)
      | _ \<Rightarrow> format_ref n)"
| "to_id_val (PList xs) = map_sum id PList (map_result to_id_val xs)"
| "to_id_val (PTuple xs) = map_sum id PList (map_result to_id_val xs)"
| "to_id_val v = Inr v"

definition to_id_kwargs :: "attrs \<Rightarrow> err + attrs" where
  "to_id_kwargs k = map_result (\<lambda>kv. map_sum id (Pair (fst kv)) (to_id_val (snd kv))) k"

section \<open>\<^verbatim>\<open>XCL\<close>: the graph of cells\<close>

text \<open>\<^verbatim>\<open>XCL._key\<close>: an edge key is normalised end by end; a reference loses its \<^verbatim>\<open>@\<close> and
  becomes an integer if it is numeric; a cell stands for its node; the rest is hashed.\<close>

fun xcl_key :: "pyval \<Rightarrow> pyval" where
  "xcl_key (PTuple [a, b]) = PTuple [xcl_key a, xcl_key b]"
| "xcl_key (PStr s) =
     (if is_ref (PStr s)
      then (if is_int (tl s) then Hash (PInt (py_int (tl s))) else Hash (PStr (tl s)))
      else Hash (PStr s))"
| "xcl_key (PCell n f a k) = xcl_key n"
| "xcl_key v = Hash v"

definition xcl_as_dict :: "pyval \<Rightarrow> attrs" where
  "xcl_as_dict v = (case v of PDict d \<Rightarrow> d | _ \<Rightarrow> [(''value'', v)])"

text \<open>\<^verbatim>\<open>XCL.__setitem__\<close>.  \<^verbatim>\<open>Cell(key, value)\<close> is the cell with node \<^verbatim>\<open>key\<close>, function
  \<^verbatim>\<open>value\<close> and no arguments.\<close>

definition xcl_setitem :: "graph \<Rightarrow> pyval \<Rightarrow> pyval \<Rightarrow> mut" where
  "xcl_setitem g key v =
     (if is_edge key then
        (let d = xcl_as_dict v
         in case xcl_key key of
              PTuple [a, b] \<Rightarrow> nx_add_edge g a b d
            | _ \<Rightarrow> (g, Some TypeError))
      else
        (let d = xcl_as_dict (if is_cell v then v else PCell key v [] [])
         in nx_add_node g (xcl_key key) d))"

text \<open>\<^verbatim>\<open>DAG.__getitem__\<close> and \<^verbatim>\<open>DAG.__contains__\<close>, inherited, with the key of \<^verbatim>\<open>XCL\<close>.\<close>

definition xcl_getitem :: "graph \<Rightarrow> pyval \<Rightarrow> err + pyval" where
  "xcl_getitem g key =
     (case xcl_key key of
        PTuple [a, b] \<Rightarrow> map_sum id as_value (nx_edge g a b)
      | k \<Rightarrow> map_sum id as_value (nx_node g k))"

definition xcl_contains :: "graph \<Rightarrow> pyval \<Rightarrow> bool" where
  "xcl_contains g key =
     (case xcl_key key of
        PTuple [a, b] \<Rightarrow> edge_data g (a, b) \<noteq> None
      | k \<Rightarrow> node_data g k \<noteq> None)"

text \<open>\<^verbatim>\<open>XCL.__add__\<close>: a cell is stored under its node, then its function, its arguments and
  the values of its keyword arguments are added; an array is added element by element; any
  other value leaves the graph as it is.\<close>

fun xcl_add :: "graph \<Rightarrow> pyval \<Rightarrow> mut"
  and xcl_add_list :: "graph \<Rightarrow> pyval list \<Rightarrow> mut"
  and xcl_add_kwargs :: "graph \<Rightarrow> attrs \<Rightarrow> mut" where
  "xcl_add g (PCell n f a k) =
     and_then (xcl_setitem g n (PCell n f a k)) (\<lambda>g.
     and_then (xcl_add g f) (\<lambda>g.
     and_then (xcl_add_list g a) (\<lambda>g. xcl_add_kwargs g k)))"
| "xcl_add g (PList xs) = xcl_add_list g xs"
| "xcl_add g (PTuple xs) = xcl_add_list g xs"
| "xcl_add g v = (g, None)"
| "xcl_add_list g [] = (g, None)"
| "xcl_add_list g (x # xs) = and_then (xcl_add g x) (\<lambda>g. xcl_add_list g xs)"
| "xcl_add_kwargs g [] = (g, None)"
| "xcl_add_kwargs g (kv # k) = and_then (xcl_add g (snd kv)) (\<lambda>g. xcl_add_kwargs g k)"

subsection \<open>\<^verbatim>\<open>to_id\<close> and \<^verbatim>\<open>from_id\<close>\<close>

text \<open>
  \<^verbatim>\<open>to_id\<close> works on a deep copy and returns it; an exception leaves no trace.  One round of
  its loop: the cell stored under the node is copied, its function, arguments and keyword
  arguments are replaced by references, and the copy is stored under the node.  A payload
  that is not a cell has no attribute \<^verbatim>\<open>function\<close>.
\<close>

definition to_id_step :: "graph \<Rightarrow> pyval \<Rightarrow> err + graph" where
  "to_id_step result node =
     bind (xcl_getitem result node) (\<lambda>c.
       case c of
         PCell n f a k \<Rightarrow>
           bind (to_id_val f) (\<lambda>f'.
           bind (map_result to_id_val a) (\<lambda>a'.
           bind (to_id_kwargs k) (\<lambda>k'.
             committed (xcl_setitem result node (PCell n f' a' k')))))
       | _ \<Rightarrow> Inl (AttributeError ''function''))"

definition xcl_to_id :: "graph \<Rightarrow> err + graph" where
  "xcl_to_id g = fold_result to_id_step (nodes g) g"



text \<open>
  \<^verbatim>\<open>nx.topological_sort\<close> is a generator: it yields a node once none of its predecessors is
  left to be yielded, and when nodes are left but none can be yielded it raises
  \<^verbatim>\<open>NetworkXUnfeasible\<close>.  The result here is the list of the nodes yielded and whether the
  generator ends with that exception.  networkx fixes no order among the nodes that can be
  yielded; here the first in the order of \<^verbatim>\<open>G.nodes\<close> is taken.
\<close>

function topo_from :: "graph \<Rightarrow> pyval list \<Rightarrow> pyval list \<times> bool" where
  "topo_from g rest =
     (case find (\<lambda>n. list_all (\<lambda>m. edge_data g (m, n) = None) rest) rest of
        None \<Rightarrow> ([], rest \<noteq> [])
      | Some n \<Rightarrow> (case topo_from g (removeAll n rest) of (order, cyc) \<Rightarrow> (n # order, cyc)))"
  by pat_completeness auto
termination
proof (relation "measure (\<lambda>(g, rest). length rest)", goal_cases)
  case 1
  show ?case by simp
next
  case (2 g rest n)
  then have "n \<in> set rest" by (auto simp: find_Some_iff)
  then show ?case by (simp add: length_removeAll_less)
qed

declare topo_from.simps [simp del]




subsection \<open>\<^verbatim>\<open>add_parents\<close>\<close>

text \<open>
  \<^verbatim>\<open>add_parents(cell, parent)\<close> changes the graph in place and calls itself; with \<^verbatim>\<open>None\<close> among
  the parents it calls itself with the arguments it was called with, and Python ends that
  with a \<^verbatim>\<open>RecursionError\<close>.  The first argument here is the depth of calls that the
  interpreter still allows.
\<close>

definition elems :: "pyval \<Rightarrow> pyval list" where
  "elems v = (case v of PList xs \<Rightarrow> xs | PTuple xs \<Rightarrow> xs | _ \<Rightarrow> [])"

primrec add_parents :: "nat \<Rightarrow> graph \<Rightarrow> pyval \<Rightarrow> pyval \<Rightarrow> mut" where
  "add_parents 0 g cell parent = (g, Some RecursionError)"
| "add_parents (Suc d) g cell parent =
     (case (if cell = PNone then map_sum id PList (map_result (xcl_getitem g) (nodes g))
            else Inr cell) of
        Inl e \<Rightarrow> (g, Some e)
      | Inr cell1 \<Rightarrow>
         (case (if is_ref cell1 then xcl_getitem g cell1 else Inr cell1) of
            Inl e \<Rightarrow> (g, Some e)
          | Inr cell2 \<Rightarrow>
             and_then
               (if \<not> is_ref cell1 \<and> is_array cell1
                then for_each (\<lambda>g c. add_parents d g c parent) (elems cell1) g
                else (g, None))
               (\<lambda>g. case cell2 of
                  PCell n f a k \<Rightarrow>
                    if is_cell parent \<or> is_ref parent
                    then xcl_setitem g (PTuple [parent, cell2]) (PDict [])
                    else if is_array parent
                    then for_each (\<lambda>g p. add_parents d g cell2 p) (elems parent) g
                    else if parent = PNone
                    then and_then (add_parents d g cell2 f) (\<lambda>g.
                         and_then (add_parents d g cell2 (PList a)) (\<lambda>g.
                           add_parents d g cell2 (PList (map snd k))))
                    else (g, None)
                | _ \<Rightarrow> (g, None))))"

text \<open>\<^verbatim>\<open>g.add_parents()\<close>, with both defaults.\<close>

definition xcl_add_parents :: "nat \<Rightarrow> graph \<Rightarrow> mut" where
  "xcl_add_parents d g = add_parents d g PNone PNone"

subsection \<open>Evaluating a cell\<close>

text \<open>
  Modelled from the spec: calling a cell, which \<^verbatim>\<open>_cell.py\<close> defines.  By the spec every
  argument that is itself a cell is evaluated, then the function is called on the resolved
  arguments; a plain cell keeps no cache.  The docstring of \<^verbatim>\<open>to_id\<close> fixes two more points:
  \<^verbatim>\<open>Cell('a', 1)\<close> evaluates to \<^verbatim>\<open>1\<close>, so a function that is not callable is the value; and a
  reference is passed to the function as the string it is (\<^verbatim>\<open>h['c']() == '@a@b'\<close>).
  The callables are named; \<^verbatim>\<open>operator.add\<close> is the one the spec and the docstrings use.
\<close>

fun call_function :: "string \<Rightarrow> pyval list \<Rightarrow> attrs \<Rightarrow> err + pyval" where
  "call_function f [PInt a, PInt b] [] = (if f = ''add'' then Inr (PInt (a + b)) else Inl TypeError)"
| "call_function f [PStr a, PStr b] [] = (if f = ''add'' then Inr (PStr (a @ b)) else Inl TypeError)"
| "call_function f [PList a, PList b] [] = (if f = ''add'' then Inr (PList (a @ b)) else Inl TypeError)"
| "call_function f args kwargs = Inl TypeError"

fun resolve :: "pyval \<Rightarrow> err + pyval" where
  "resolve (PCell n f a k) =
     bind (resolve f) (\<lambda>f'.
     bind (map_result resolve a) (\<lambda>a'.
     bind (map_result (\<lambda>kv. map_sum id (Pair (fst kv)) (resolve (snd kv))) k) (\<lambda>k'.
       case f' of PFun name \<Rightarrow> call_function name a' k' | _ \<Rightarrow> Inr f')))"
| "resolve (PList xs) = map_sum id PList (map_result resolve xs)"
| "resolve (PTuple xs) = map_sum id PList (map_result resolve xs)"
| "resolve v = Inr v"

text \<open>\<^verbatim>\<open>v()\<close>: a cell is evaluated; for a value of the graph that is not a cell (a dict of
  attributes) the call is a \<^verbatim>\<open>TypeError\<close>.\<close>

definition evaluate :: "pyval \<Rightarrow> err + pyval" where
  "evaluate v = (if is_cell v then resolve v else Inl TypeError)"

subsection \<open>\<^verbatim>\<open>metadata\<close>, \<^verbatim>\<open>to_table\<close>, \<^verbatim>\<open>to_json\<close> and \<^verbatim>\<open>from_json\<close>\<close>





text \<open>
  jsonpickle's text is modelled by what it encodes: a JSON object is a dict with string keys,
  in order, and a value decodes to the value that was encoded.  A key that is not a string
  is written as its \<^verbatim>\<open>repr\<close>.  \<^verbatim>\<open>to_json\<close> encodes the dict of the nodes of \<^verbatim>\<open>to_id()\<close>.
\<close>

type_synonym json = "(string \<times> pyval) list"

definition json_key :: "pyval \<Rightarrow> string" where
  "json_key k = py_str k"

definition xcl_to_json :: "graph \<Rightarrow> err + json" where
  "xcl_to_json g =
     bind (xcl_to_id g) (\<lambda>i.
     bind (map_result (\<lambda>k. map_sum id (Pair k) (xcl_getitem i k)) (nodes i)) (\<lambda>items.
       Inr (foldl (\<lambda>d (k, v). dict_set d (json_key k) v) [] items)))"



section \<open>The concrete scenario\<close>

text \<open>\<^verbatim>\<open>a_cell = Cell('a', 1)\<close>, \<^verbatim>\<open>b_cell = Cell('b', 2)\<close>,
  \<^verbatim>\<open>c = Cell('c', operator.add, a_cell, b_cell)\<close> and \<^verbatim>\<open>g = XCL() + c\<close>.\<close>

definition a_cell :: pyval where "a_cell = PCell (PStr ''a'') (PInt 1) [] []"
definition b_cell :: pyval where "b_cell = PCell (PStr ''b'') (PInt 2) [] []"
definition c_cell :: pyval where "c_cell = PCell (PStr ''c'') (PFun ''add'') [a_cell, b_cell] []"

definition g_abc :: graph where
  "g_abc = fst (xcl_add empty_graph c_cell)"

lemmas xcl_unfold =
  xcl_setitem_def xcl_getitem_def xcl_contains_def xcl_as_dict_def is_edge_def is_cell_def
  is_ref_def is_array_def nx_add_node_def nx_add_edge_def nx_ensure_node_def nx_node_def
  nx_edge_def and_then_def dict_update_def as_value_def bind_def elems_def digest_def

lemma xcl_add_c_cell:
  "xcl_add empty_graph c_cell =
     (\<lparr>nodes = [PInt 100, PInt 98, PInt 99],
       node_data = [PInt 100 \<mapsto> [(''value'', c_cell)], PInt 98 \<mapsto> [(''value'', a_cell)],
                    PInt 99 \<mapsto> [(''value'', b_cell)]],
       edge_data = Map.empty\<rparr>, None)"
  by (simp add: c_cell_def a_cell_def b_cell_def empty_graph_def xcl_unfold)

lemma add_parents_g_abc:
  "xcl_add_parents (Suc (Suc (Suc (Suc d)))) g_abc =
     (g_abc\<lparr>edge_data := [(PInt 98, PInt 100) \<mapsto> [], (PInt 99, PInt 100) \<mapsto> []]\<rparr>, None)"
  unfolding xcl_add_parents_def g_abc_def xcl_add_c_cell
  by (simp add: xcl_unfold c_cell_def a_cell_def b_cell_def)

lemma evaluate_c_cell: "evaluate c_cell = Inr (PInt 3)"
  by (simp add: evaluate_def is_cell_def c_cell_def a_cell_def b_cell_def bind_def)

text \<open>
  Claim C5.  \<^verbatim>\<open>g = XCL() + c\<close> is built without an exception and contains nodes for \<^verbatim>\<open>a\<close>,
  \<^verbatim>\<open>b\<close> and \<^verbatim>\<open>c\<close>; \<^verbatim>\<open>g.add_parents()\<close>, given a depth of at least four calls, ends without an
  exception and leaves the edges \<^verbatim>\<open>(a, c)\<close> and \<^verbatim>\<open>(b, c)\<close> in the graph; and \<^verbatim>\<open>g['c']()\<close> is
  \<^verbatim>\<open>3\<close>, before and after.
\<close>

theorem concrete_scenario:
  "snd (xcl_add empty_graph c_cell) = None \<and>
   xcl_contains g_abc (PStr ''a'') \<and> xcl_contains g_abc (PStr ''b'') \<and>
   xcl_contains g_abc (PStr ''c'') \<and>
   snd (xcl_add_parents (4 + d) g_abc) = None \<and>
   xcl_contains (fst (xcl_add_parents (4 + d) g_abc)) (PTuple [PStr ''a'', PStr ''c'']) \<and>
   xcl_contains (fst (xcl_add_parents (4 + d) g_abc)) (PTuple [PStr ''b'', PStr ''c'']) \<and>
   bind (xcl_getitem g_abc (PStr ''c'')) evaluate = Inr (PInt 3) \<and>
   bind (xcl_getitem (fst (xcl_add_parents (4 + d) g_abc)) (PStr ''c'')) evaluate = Inr (PInt 3)"
proof -
  have d: "4 + d = Suc (Suc (Suc (Suc d)))" by simp
  have c: "xcl_getitem g_abc (PStr ''c'') = Inr c_cell"
    by (simp add: g_abc_def xcl_add_c_cell xcl_unfold)
  have c': "xcl_getitem (fst (xcl_add_parents (4 + d) g_abc)) (PStr ''c'') = Inr c_cell"
    unfolding d add_parents_g_abc by (simp add: g_abc_def xcl_add_c_cell xcl_unfold)
  have n: "xcl_contains g_abc (PStr ''a'')" "xcl_contains g_abc (PStr ''b'')"
    "xcl_contains g_abc (PStr ''c'')"
    by (simp_all add: g_abc_def xcl_add_c_cell xcl_unfold)
  have e: "xcl_contains (fst (xcl_add_parents (4 + d) g_abc)) (PTuple [PStr ''a'', PStr ''c''])"
    "xcl_contains (fst (xcl_add_parents (4 + d) g_abc)) (PTuple [PStr ''b'', PStr ''c''])"
    unfolding d add_parents_g_abc by (simp_all add: xcl_unfold)
  have s: "snd (xcl_add_parents (4 + d) g_abc) = None"
    unfolding d add_parents_g_abc by simp
  show ?thesis
    using c c' n e s evaluate_c_cell by (simp add: xcl_add_c_cell bind_def)
qed

section \<open>Keys\<close>

lemma Hash_int: "\<exists>i. Hash v = PInt i"
  by (induction v rule: Hash.induct) auto

definition key_ok :: "pyval \<Rightarrow> bool" where
  "key_ok k = (hashable k \<and> k \<noteq> PNone)"

lemma xcl_key_ok: "key_ok (xcl_key k)"
proof (induction k rule: xcl_key.induct)
  case (1 a b)
  then show ?case by (simp add: key_ok_def)
next
  case (2 s)
  show ?case
    using Hash_int [of "PInt (py_int (tl s))"] Hash_int [of "PStr (tl s)"] Hash_int [of "PStr s"]
    by (auto simp: key_ok_def)
next
  case (3 n f a k)
  then show ?case by simp
qed (insert Hash_int, auto simp: key_ok_def digest_def)

lemma xcl_key_edge:
  assumes "is_edge key"
  shows "\<exists>a b. xcl_key key = PTuple [a, b] \<and> key_ok a \<and> key_ok b"
proof -
  from assms obtain x y where "key = PTuple [x, y]"
    by (auto simp: is_edge_def split: pyval.splits list.splits)
  then show ?thesis using xcl_key_ok by simp
qed

lemma dict_update_value [simp]: "dict_update d [(''value'', v)] = dict_set d ''value'' v"
  by (simp add: dict_update_def)

lemma dict_update_empty [simp]: "dict_update d [] = d"
  by (simp add: dict_update_def)

lemma dict_set_twice [simp]: "dict_set (dict_set d k v) k w = dict_set d k w"
  by (induction d) auto

section \<open>Insertion as a sequence of writes\<close>

text \<open>
  What \<^verbatim>\<open>XCL.__setitem__\<close> does when the value is a cell: it writes the attribute \<^verbatim>\<open>value\<close>
  of a node, or, when the key is an edge key, of an edge between two nodes that it adds if
  they are missing.
\<close>

datatype wop = NodeW pyval pyval | EdgeW pyval pyval pyval

definition dflt :: "attrs option \<Rightarrow> attrs" where
  "dflt x = (case x of None \<Rightarrow> [] | Some d \<Rightarrow> d)"

definition ens :: "pyval \<Rightarrow> graph \<Rightarrow> graph" where
  "ens k g =
     (if node_data g k = None
      then g\<lparr>nodes := nodes g @ [k], node_data := (node_data g)(k \<mapsto> [])\<rparr> else g)"

fun apply_op :: "wop \<Rightarrow> graph \<Rightarrow> graph" where
  "apply_op (NodeW k v) g =
     g\<lparr>nodes := (if node_data g k = None then nodes g @ [k] else nodes g),
       node_data := (node_data g)(k \<mapsto> dict_set (dflt (node_data g k)) ''value'' v)\<rparr>"
| "apply_op (EdgeW a b v) g =
     (ens b (ens a g))\<lparr>edge_data :=
        (edge_data g)((a, b) \<mapsto> dict_set (dflt (edge_data g (a, b))) ''value'' v)\<rparr>"


lemma nx_ensure_node_ens: "key_ok k \<Longrightarrow> nx_ensure_node g k = (ens k g, None)"
  by (auto simp: key_ok_def nx_ensure_node_def ens_def split: option.splits)

lemma ens_edge_data [simp]: "edge_data (ens k g) = edge_data g"
  by (simp add: ens_def)



definition run :: "wop list \<Rightarrow> graph \<Rightarrow> graph" where
  "run ops g = foldl (\<lambda>g w. apply_op w g) g ops"

lemma run_simps [simp]:
  "run [] g = g"
  "run (w # ops) g = run ops (apply_op w g)"
  "run (ops @ ops') g = run ops' (run ops g)"
  by (simp_all add: run_def)

lemma and_then_ok [simp]: "and_then (g, None) f = f g"
  by (simp add: and_then_def)


subsection \<open>What a sequence of writes leaves\<close>

fun touched :: "wop \<Rightarrow> pyval set" where
  "touched (NodeW k v) = {k}"
| "touched (EdgeW a b v) = {a, b}"

fun node_write :: "wop \<Rightarrow> pyval \<Rightarrow> pyval option" where
  "node_write (NodeW k' v) k = (if k' = k then Some v else None)"
| "node_write (EdgeW a b v) k = None"


text \<open>The last value that a sequence of writes stores under a target, if it stores any.\<close>

fun last_write :: "(wop \<Rightarrow> 'a \<Rightarrow> pyval option) \<Rightarrow> wop list \<Rightarrow> 'a \<Rightarrow> pyval option" where
  "last_write f [] k = None"
| "last_write f (w # ops) k = (case last_write f ops k of Some v \<Rightarrow> Some v | None \<Rightarrow> f w k)"






lemma last_write_touched:
  "last_write node_write ops k = Some v \<Longrightarrow> k \<in> \<Union> (touched ` set ops)"
proof (induction ops)
  case (Cons w ops)
  then show ?case by (cases w) (auto split: option.splits if_splits)
qed simp






section \<open>The topological order\<close>

definition edges :: "graph \<Rightarrow> (pyval \<times> pyval) set" where
  "edges g = {e. edge_data g e \<noteq> None}"

definition ready :: "graph \<Rightarrow> pyval list \<Rightarrow> pyval \<Rightarrow> bool" where
  "ready g rest n = list_all (\<lambda>m. edge_data g (m, n) = None) rest"

lemma topo_from_unfold:
  "topo_from g rest =
     (case find (ready g rest) rest of
        None \<Rightarrow> ([], rest \<noteq> [])
      | Some n \<Rightarrow> (case topo_from g (removeAll n rest) of (order, cyc) \<Rightarrow> (n # order, cyc)))"
  by (subst topo_from.simps) (simp add: ready_def [abs_def])

lemma topo_from_None:
  "find (ready g rest) rest = None \<Longrightarrow> topo_from g rest = ([], rest \<noteq> [])"
  by (subst topo_from_unfold) simp

lemma topo_from_Some:
  "find (ready g rest) rest = Some n \<Longrightarrow>
   topo_from g rest = (n # fst (topo_from g (removeAll n rest)), snd (topo_from g (removeAll n rest)))"
  by (subst topo_from_unfold) (simp split: prod.splits)

lemma find_ready_Some:
  "find (ready g rest) rest = Some n \<Longrightarrow> n \<in> set rest \<and> (\<forall>m \<in> set rest. (m, n) \<notin> edges g)"
  by (auto simp: find_Some_iff ready_def list_all_iff edges_def)


lemma topo_from_induct [case_names step]:
  assumes "\<And>rest. (\<And>n. find (ready g rest) rest = Some n \<Longrightarrow> P (removeAll n rest)) \<Longrightarrow> P rest"
  shows "P rest"
proof (induction "length rest" arbitrary: rest rule: less_induct)
  case less
  show ?case
  proof (rule assms)
    fix n assume "find (ready g rest) rest = Some n"
    then have "n \<in> set rest" using find_ready_Some by blast
    then have "length (removeAll n rest) < length rest" by (rule length_removeAll_less)
    then show "P (removeAll n rest)" by (rule less)
  qed
qed




text \<open>A node is yielded only after all its predecessors among the nodes to be sorted.\<close>

lemma topo_from_order:
  "fst (topo_from g rest) = pre @ n # post \<Longrightarrow> m \<in> set rest \<Longrightarrow> (m, n) \<in> edges g \<Longrightarrow> m \<in> set pre"
proof (induction rest arbitrary: pre rule: topo_from_induct [of g])
  case (step rest)
  show ?case
  proof (cases "find (ready g rest) rest")
    case None
    with step.prems(1) show ?thesis by (simp add: topo_from_None)
  next
    case (Some n0)
    then have eq: "fst (topo_from g rest) = n0 # fst (topo_from g (removeAll n0 rest))"
      by (simp add: topo_from_Some)
    show ?thesis
    proof (cases pre)
      case Nil
      with eq step.prems(1) have "n = n0" by simp
      with find_ready_Some [OF Some] step.prems(2,3) show ?thesis by blast
    next
      case (Cons p pre')
      with eq step.prems(1) have p: "p = n0"
        and rest': "fst (topo_from g (removeAll n0 rest)) = pre' @ n # post" by simp_all
      show ?thesis
      proof (cases "m = n0")
        case True
        with Cons p show ?thesis by simp
      next
        case False
        with step.prems(2) have "m \<in> set (removeAll n0 rest)" by simp
        from step.IH [OF Some rest' this step.prems(3)] Cons show ?thesis by simp
      qed
    qed
  qed
qed



section \<open>Cycles\<close>











section \<open>What \<^verbatim>\<open>add_parents\<close> leaves when it raises\<close>

text \<open>
  \<^verbatim>\<open>to_id\<close>, \<^verbatim>\<open>from_id\<close> and \<^verbatim>\<open>to_json\<close> (through \<^verbatim>\<open>to_id\<close>) write to a deep copy of the graph
  only; they are functions of the graph here, and the graph they are called on is the same
  after the call, exception or not.  \<^verbatim>\<open>add_parents\<close> writes to the graph itself
  (\<^verbatim>\<open>graph = self\<close>).  What it keeps, whether it raises or not: the nodes in their order, new
  ones coming after them, every payload, and every edge with its attributes.
\<close>

definition extends :: "graph \<Rightarrow> graph \<Rightarrow> bool" where
  "extends g g' =
     ((\<exists>new. nodes g' = nodes g @ new) \<and>
      (\<forall>k d. node_data g k = Some d \<longrightarrow> node_data g' k = Some d) \<and>
      (\<forall>e d. edge_data g e = Some d \<longrightarrow> edge_data g' e = Some d))"

lemma extends_refl [simp]: "extends g g"
  by (simp add: extends_def)

lemma extends_trans: "extends g g' \<Longrightarrow> extends g' g'' \<Longrightarrow> extends g g''"
  by (auto simp: extends_def)

lemma extends_ens: "extends g (ens k g)"
  by (auto simp: extends_def ens_def)

lemma extends_and_then:
  assumes "extends g (fst m)" and "\<And>g'. extends g g' \<Longrightarrow> extends g (fst (f g'))"
  shows "extends g (fst (and_then m f))"
  using assms by (cases m) (auto simp: and_then_def split: option.splits)

lemma extends_for_each:
  assumes "\<And>g' x. x \<in> set xs \<Longrightarrow> extends g' (fst (f g' x))"
  shows "extends g (fst (for_each f xs g))"
  using assms
proof (induction xs arbitrary: g)
  case Nil
  show ?case by simp
next
  case (Cons x xs)
  show ?case
    unfolding for_each.simps
  proof (rule extends_and_then)
    show "extends g (fst (f g x))" by (rule Cons.prems) simp
  next
    fix g' assume "extends g g'"
    moreover have "extends g' (fst (for_each f xs g'))"
      by (rule Cons.IH) (simp add: Cons.prems)
    ultimately show "extends g (fst (for_each f xs g'))" by (rule extends_trans)
  qed
qed

lemma extends_set_edge: "extends g (fst (xcl_setitem g (PTuple [p, c]) (PDict [])))"
proof -
  obtain a b where ab: "xcl_key (PTuple [p, c]) = PTuple [a, b]" "key_ok a" "key_ok b"
    using xcl_key_edge [of "PTuple [p, c]"] by (auto simp: is_edge_def)
  have "extends g (ens b (ens a g))"
    using extends_ens extends_trans by blast
  moreover have "extends (ens b (ens a g))
      ((ens b (ens a g))\<lparr>edge_data := (edge_data g)((a, b) \<mapsto> dflt (edge_data g (a, b)))\<rparr>)"
    by (auto simp: extends_def dflt_def)
  ultimately have "extends g
      ((ens b (ens a g))\<lparr>edge_data := (edge_data g)((a, b) \<mapsto> dflt (edge_data g (a, b)))\<rparr>)"
    by (rule extends_trans)
  moreover have "xcl_setitem g (PTuple [p, c]) (PDict []) =
      ((ens b (ens a g))\<lparr>edge_data := (edge_data g)((a, b) \<mapsto> dflt (edge_data g (a, b)))\<rparr>, None)"
    using ab
    by (simp add: xcl_setitem_def is_edge_def xcl_as_dict_def nx_add_edge_def nx_ensure_node_ens
        dflt_def del: xcl_key.simps)
  ultimately show ?thesis by simp
qed

text \<open>
  Claim C4, the part that holds for \<^verbatim>\<open>add_parents\<close>: whatever the call and whether it raises
  or not, the graph it leaves extends the graph it was given.
\<close>

theorem add_parents_extends: "extends g (fst (add_parents d g cell parent))"
proof (induction d arbitrary: g cell parent)
  case 0
  show ?case by simp
next
  case (Suc d)
  have loop: "extends g' (fst (for_each (\<lambda>g c. add_parents d g c p) xs g'))" for g' p xs
    by (rule extends_for_each) (rule Suc.IH)
  have loop': "extends g' (fst (for_each (\<lambda>g p. add_parents d g c p) xs g'))" for g' c xs
    by (rule extends_for_each) (rule Suc.IH)
  have three: "extends g' (fst (and_then (add_parents d g' c f) (\<lambda>g.
                 and_then (add_parents d g c a) (\<lambda>g. add_parents d g c k))))" for g' c f a k
    by (intro extends_and_then Suc.IH extends_trans [OF _ Suc.IH])
  have tail: "extends g' (fst (case c of
                  PCell n f a k \<Rightarrow>
                    if is_cell parent \<or> is_ref parent
                    then xcl_setitem g' (PTuple [parent, c]) (PDict [])
                    else if is_array parent
                    then for_each (\<lambda>g p. add_parents d g c p) (elems parent) g'
                    else if parent = PNone
                    then and_then (add_parents d g' c f) (\<lambda>g.
                         and_then (add_parents d g c (PList a)) (\<lambda>g.
                           add_parents d g c (PList (map snd k))))
                    else (g', None)
                | _ \<Rightarrow> (g', None)))" for g' c
    by (cases c) (simp_all add: extends_set_edge loop' three)
  show ?case
    unfolding add_parents.simps
    by (auto split: sum.splits intro!: extends_and_then loop extends_trans [OF _ tail])
qed

theorem add_parents_extends_witness:
  "extends g_abc (fst (xcl_add_parents 4 g_abc)) \<and>
   node_data g_abc (PInt 100) = Some [(''value'', c_cell)] \<and>
   node_data (fst (xcl_add_parents 4 g_abc)) (PInt 100) = Some [(''value'', c_cell)]"
proof -
  have e: "extends g_abc (fst (xcl_add_parents 4 g_abc))"
    unfolding xcl_add_parents_def by (rule add_parents_extends)
  have n: "node_data g_abc (PInt 100) = Some [(''value'', c_cell)]"
    by (simp add: g_abc_def xcl_add_c_cell)
  from e n show ?thesis by (simp add: extends_def)
qed

text \<open>
  \<^verbatim>\<open>c = Cell('c', operator.add, a_cell, None)\<close> and \<^verbatim>\<open>g = XCL() + c\<close>.  In \<^verbatim>\<open>g.add_parents()\<close>
  the edge \<^verbatim>\<open>(a, c)\<close> is added; then the argument \<^verbatim>\<open>None\<close> is taken for the default
  \<^verbatim>\<open>parent=None\<close>, the parents of the cell are walked again, and so on until the depth limit.
\<close>

definition c_none :: pyval where
  "c_none = PCell (PStr ''c'') (PFun ''add'') [a_cell, PNone] []"

definition g_none :: graph where
  "g_none = fst (xcl_add empty_graph c_none)"

definition g_none_edge :: graph where
  "g_none_edge = g_none\<lparr>edge_data := [(PInt 98, PInt 100) \<mapsto> []]\<rparr>"

lemma g_none_eq:
  "g_none = \<lparr>nodes = [PInt 100, PInt 98],
             node_data = [PInt 100 \<mapsto> [(''value'', c_none)], PInt 98 \<mapsto> [(''value'', a_cell)]],
             edge_data = Map.empty\<rparr>"
  by (simp add: g_none_def c_none_def a_cell_def empty_graph_def xcl_unfold)

lemma set_edge_again:
  "xcl_setitem g_none_edge (PTuple [a_cell, c_none]) (PDict []) = (g_none_edge, None)"
  by (simp add: g_none_edge_def g_none_eq c_none_def a_cell_def xcl_unfold ens_def)

lemma add_parents_none_loops:
  "add_parents d g_none_edge c_none PNone = (g_none_edge, Some RecursionError)"
proof (induction d rule: less_induct)
  case (less d)
  show ?case
  proof (cases d)
    case 0
    then show ?thesis by simp
  next
    case d1: (Suc d1)
    show ?thesis
    proof (cases d1)
      case 0
      with d1 show ?thesis
        by (simp add: c_none_def a_cell_def is_ref_def is_array_def is_cell_def and_then_def)
    next
      case d2: (Suc d2)
      show ?thesis
      proof (cases d2)
        case 0
        with d1 d2 show ?thesis
          by (simp add: c_none_def a_cell_def is_ref_def is_array_def is_cell_def and_then_def
              elems_def)
      next
        case (Suc d3)
        have "d2 < d" using d1 d2 by simp
        then have loop: "add_parents d2 g_none_edge c_none PNone = (g_none_edge, Some RecursionError)"
          by (rule less)
        have edge: "add_parents d2 g_none_edge c_none a_cell = (g_none_edge, None)"
          using Suc set_edge_again
          by (simp add: is_ref_def is_array_def is_cell_def and_then_def c_none_def a_cell_def)
        have "add_parents d1 g_none_edge c_none (PList [a_cell, PNone])
                = (g_none_edge, Some RecursionError)"
          using d2 loop edge
          by (simp add: is_ref_def is_array_def is_cell_def and_then_def elems_def c_none_def)
        moreover have "add_parents d1 g_none_edge c_none (PFun ''add'') = (g_none_edge, None)"
          using d2
          by (simp add: is_ref_def is_array_def is_cell_def and_then_def elems_def c_none_def)
        ultimately show ?thesis
          using d1 by (simp add: is_ref_def is_array_def is_cell_def and_then_def c_none_def)
      qed
    qed
  qed
qed

lemma add_parents_g_none:
  "xcl_add_parents (Suc (Suc (Suc (Suc d)))) g_none = (g_none_edge, Some RecursionError)"
proof -
  have edge: "add_parents (Suc d) g_none c_none a_cell = (g_none_edge, None)"
    by (simp add: g_none_edge_def g_none_eq c_none_def a_cell_def xcl_unfold)
  have "add_parents (Suc (Suc d)) g_none c_none (PList [a_cell, PNone])
          = (g_none_edge, Some RecursionError)"
    using edge add_parents_none_loops [of "Suc d"]
    by (simp add: is_ref_def is_array_def is_cell_def and_then_def elems_def c_none_def)
  moreover have "add_parents (Suc (Suc d)) g_none c_none (PFun ''add'') = (g_none, None)"
    by (simp add: is_ref_def is_array_def is_cell_def and_then_def elems_def c_none_def)
  ultimately have "add_parents (Suc (Suc (Suc d))) g_none c_none PNone
          = (g_none_edge, Some RecursionError)"
    by (simp add: is_ref_def is_array_def is_cell_def and_then_def c_none_def)
  moreover have "map_result (xcl_getitem g_none) (nodes g_none) = Inr [c_none, a_cell]"
    by (simp add: g_none_eq xcl_unfold)
  ultimately show ?thesis
    by (simp add: xcl_add_parents_def is_ref_def is_array_def is_cell_def and_then_def elems_def)
qed

text \<open>
  The claim as written fails for \<^verbatim>\<open>add_parents\<close>.  With Python's default depth limit of 1000
  calls, \<^verbatim>\<open>g.add_parents()\<close> on the graph above raises \<^verbatim>\<open>RecursionError\<close>, and the edge
  \<^verbatim>\<open>(a, c)\<close>, which the graph did not have, is in it after the call.
\<close>

theorem add_parents_not_atomic:
  "xcl_add_parents 1000 g_none = (g_none_edge, Some RecursionError) \<and>
   edge_data g_none (PInt 98, PInt 100) = None \<and>
   edge_data g_none_edge (PInt 98, PInt 100) = Some []"
proof -
  have "(1000::nat) = Suc (Suc (Suc (Suc 996)))" by simp
  then show ?thesis
    using add_parents_g_none [of 996] by (simp add: g_none_edge_def g_none_eq)
qed

section \<open>References that lead nowhere\<close>



lemma map_result_Inr:
  "map_result f xs = Inr ys \<Longrightarrow> length ys = length xs \<and> (\<forall>i < length xs. f (xs ! i) = Inr (ys ! i))"
proof (induction xs arbitrary: ys)
  case Nil
  then show ?case by simp
next
  case (Cons x xs)
  then show ?case by (auto split: sum.splits simp: nth_Cons split: nat.splits)
qed

































section \<open>Node payloads of an \<^verbatim>\<open>XCL\<close> graph\<close>














subsection \<open>The graph that \<^verbatim>\<open>from_json\<close> builds\<close>































end
